theory Spec2Isabelle
  imports Complex_Main
begin

section \<open>Python values\<close>

text \<open>
  A Python \<open>str\<close> is a sequence of Unicode code points, so it is modelled as a list of
  naturals; \<open>lit\<close> embeds an ASCII literal of the source. A \<open>bytes\<close> object is a list of
  naturals below 256.
\<close>

type_synonym codepoint = nat
type_synonym pystr = "codepoint list"
type_synonym byte = nat

definition lit :: "string \<Rightarrow> pystr" where
  "lit s = map of_char s"

text \<open>
  Values that \<open>json.loads\<close> produces. A Python \<open>float\<close> is read as the real number it
  denotes; only its comparison with 403 is ever used.
\<close>

datatype json =
    JNull
  | JBool bool
  | JInt int
  | JFloat real
  | JStr pystr
  | JArr "json list"
  | JObj "(pystr \<times> json) list"

text \<open>
  \<open>googleapiclient.errors.HttpError\<close>: the status of the response and its body. The
  source reads the body only.
\<close>

record HttpError_data =
  status :: int
  content :: "byte list"

text \<open>The exceptions that the modelled code can raise or let through.\<close>

datatype exn =
    KeyError pystr
  | TypeError
  | AttributeError
  | AssertionError
  | UnicodeDecodeError
  | JSONDecodeError
  | ConfigurationError pystr
  | HttpError HttpError_data

text \<open>\<open>sep.join(xs)\<close>.\<close>

fun py_join :: "pystr \<Rightarrow> pystr list \<Rightarrow> pystr" where
  "py_join sep [] = []"
| "py_join sep [x] = x"
| "py_join sep (x # y # ys) = x @ sep @ py_join sep (y # ys)"

text \<open>
  A list comprehension whose element expression can raise: the first exception ends it.
\<close>

fun comprehend :: "('a \<Rightarrow> exn + 'b) \<Rightarrow> 'a list \<Rightarrow> exn + 'b list" where
  "comprehend f [] = Inr []"
| "comprehend f (x # xs) =
     (case f x of
        Inl e \<Rightarrow> Inl e
      | Inr y \<Rightarrow> (case comprehend f xs of Inl e \<Rightarrow> Inl e | Inr ys \<Rightarrow> Inr (y # ys)))"

section \<open>UTF-8\<close>

text \<open>
  \<open>s.encode("utf-8", "ignore")\<close>: a code point is written as one to four bytes; the
  surrogates U+D800 to U+DFFF have no UTF-8 form and the \<open>ignore\<close> handler skips them.
  A Python string holds no code point from 0x110000 on; the model skips those too.
\<close>

definition is_surrogate :: "codepoint \<Rightarrow> bool" where
  "is_surrogate c = (0xD800 \<le> c \<and> c \<le> 0xDFFF)"

definition utf8_encode_char :: "codepoint \<Rightarrow> byte list option" where
  "utf8_encode_char c =
     (if c < 0x80 then Some [c]
      else if c < 0x800 then Some [0xC0 + c div 0x40, 0x80 + c mod 0x40]
      else if c < 0x10000 then
        (if is_surrogate c then None
         else Some [0xE0 + c div 0x1000, 0x80 + c div 0x40 mod 0x40, 0x80 + c mod 0x40])
      else if c < 0x110000 then
        Some [0xF0 + c div 0x40000, 0x80 + c div 0x1000 mod 0x40,
              0x80 + c div 0x40 mod 0x40, 0x80 + c mod 0x40]
      else None)"

definition encode_utf8_ignore :: "pystr \<Rightarrow> byte list" where
  "encode_utf8_ignore s =
     concat (map (\<lambda>c. case utf8_encode_char c of None \<Rightarrow> [] | Some bs \<Rightarrow> bs) s)"

text \<open>
  \<open>b.decode("utf-8")\<close>, strict: a stray or missing continuation byte, an overlong form,
  an encoded surrogate and a value from 0x110000 on are errors (\<open>None\<close>, which the callers
  turn into \<open>UnicodeDecodeError\<close>).
\<close>

definition is_cont :: "byte \<Rightarrow> bool" where
  "is_cont b = (0x80 \<le> b \<and> b < 0xC0)"

fun decode_utf8 :: "byte list \<Rightarrow> pystr option" where
  "decode_utf8 [] = Some []"
| "decode_utf8 (b0 # bs) =
     (if b0 < 0x80 then map_option (Cons b0) (decode_utf8 bs)
      else if 0xC2 \<le> b0 \<and> b0 < 0xE0 then
        (case bs of
           b1 # r \<Rightarrow>
             if is_cont b1
             then map_option (Cons ((b0 - 0xC0) * 0x40 + (b1 - 0x80))) (decode_utf8 r)
             else None
         | _ \<Rightarrow> None)
      else if 0xE0 \<le> b0 \<and> b0 < 0xF0 then
        (case bs of
           b1 # b2 # r \<Rightarrow>
             (let c = (b0 - 0xE0) * 0x1000 + (b1 - 0x80) * 0x40 + (b2 - 0x80)
              in if is_cont b1 \<and> is_cont b2 \<and> 0x800 \<le> c \<and> \<not> is_surrogate c
                 then map_option (Cons c) (decode_utf8 r) else None)
         | _ \<Rightarrow> None)
      else if 0xF0 \<le> b0 \<and> b0 < 0xF5 then
        (case bs of
           b1 # b2 # b3 # r \<Rightarrow>
             (let c = (b0 - 0xF0) * 0x40000 + (b1 - 0x80) * 0x1000
                      + (b2 - 0x80) * 0x40 + (b3 - 0x80)
              in if is_cont b1 \<and> is_cont b2 \<and> is_cont b3 \<and> 0x10000 \<le> c \<and> c < 0x110000
                 then map_option (Cons c) (decode_utf8 r) else None)
         | _ \<Rightarrow> None)
      else None)"

text \<open>\<open>s.encode("utf-8", "ignore").decode("utf-8")\<close>\<close>

definition reencode :: "pystr \<Rightarrow> exn + pystr" where
  "reencode s =
     (case decode_utf8 (encode_utf8_ignore s) of
        None \<Rightarrow> Inl UnicodeDecodeError
      | Some t \<Rightarrow> Inr t)"

text \<open>The code points that UTF-8 can carry: the ones that a re-encoding keeps.\<close>

definition encodable :: "codepoint \<Rightarrow> bool" where
  "encodable c = (c < 0x110000 \<and> \<not> is_surrogate c)"

section \<open>\<open>json.dumps\<close>\<close>

text \<open>
  \<open>json.dumps\<close> with its defaults (\<open>ensure_ascii\<close>, separators \<open>", "\<close> and \<open>": "\<close>) on
  the two shapes the source passes to it: a list of strings and a list of dictionaries
  from strings to strings. Inside a string, the quote, the backslash and the control
  characters with a short form get that form; every other character outside the range
  from space to tilde becomes \<open>\uXXXX\<close> in lower-case hexadecimal, as a surrogate pair
  from 0x10000 on.
\<close>

definition hexdigit :: "nat \<Rightarrow> codepoint" where
  "hexdigit d = (if d < 10 then 0x30 + d else 0x57 + d)"

definition u_escape :: "nat \<Rightarrow> pystr" where
  "u_escape n =
     [0x5C, 0x75, hexdigit (n div 0x1000 mod 0x10), hexdigit (n div 0x100 mod 0x10),
      hexdigit (n div 0x10 mod 0x10), hexdigit (n mod 0x10)]"

definition json_escape :: "codepoint \<Rightarrow> pystr" where
  "json_escape c =
     (if c = 0x5C then [0x5C, 0x5C]
      else if c = 0x22 then [0x5C, 0x22]
      else if c = 0x08 then [0x5C, 0x62]
      else if c = 0x0C then [0x5C, 0x66]
      else if c = 0x0A then [0x5C, 0x6E]
      else if c = 0x0D then [0x5C, 0x72]
      else if c = 0x09 then [0x5C, 0x74]
      else if 0x20 \<le> c \<and> c \<le> 0x7E then [c]
      else if c < 0x10000 then u_escape c
      else u_escape (0xD800 + (c - 0x10000) div 0x400 mod 0x400)
           @ u_escape (0xDC00 + (c - 0x10000) mod 0x400))"

definition json_string :: "pystr \<Rightarrow> pystr" where
  "json_string s = [0x22] @ concat (map json_escape s) @ [0x22]"

definition json_array :: "pystr list \<Rightarrow> pystr" where
  "json_array items = lit ''['' @ py_join (lit '', '') items @ lit '']''"

definition json_dumps_strs :: "pystr list \<Rightarrow> pystr" where
  "json_dumps_strs xs = json_array (map json_string xs)"

type_synonym pydict = "(pystr \<times> pystr) list"

definition json_object :: "pydict \<Rightarrow> pystr" where
  "json_object d =
     lit ''{'' @ py_join (lit '', '') (map (\<lambda>(k, v). json_string k @ lit '': '' @ json_string v) d)
     @ lit ''}''"

definition json_dumps_dicts :: "pydict list \<Rightarrow> pystr" where
  "json_dumps_dicts ds = json_array (map json_object ds)"

section \<open>Configuration\<close>

text \<open>
  \<open>WebSearchConfiguration\<close>: two optional secrets and the attempt count, a Python
  \<open>int\<close> with default 3 that nothing validates.
\<close>

record WebSearchConfiguration =
  google_api_key :: "pystr option"
  google_custom_search_engine_id :: "pystr option"
  duckduckgo_max_attempts :: int

text \<open>
  Truth value of an \<open>Optional[SecretStr]\<close>: \<open>None\<close> is false, and a \<open>SecretStr\<close>
  is true when its secret has non-zero length.
\<close>

definition secret_truthy :: "pystr option \<Rightarrow> bool" where
  "secret_truthy k = (case k of None \<Rightarrow> False | Some s \<Rightarrow> s \<noteq> [])"

section \<open>Command discovery\<close>

datatype command = web_search_cmd | google_cmd

definition get_commands :: "WebSearchConfiguration \<Rightarrow> command list" where
  "get_commands config =
     web_search_cmd #
     (if secret_truthy (google_api_key config)
         \<and> secret_truthy (google_custom_search_engine_id config)
      then [google_cmd] else [])"

section \<open>The sanitizer\<close>

text \<open>
  The argument of \<open>safe_google_results\<close> is a string or a list. An element of the list
  that is not a string has no \<open>encode\<close> method.
\<close>

datatype pyval = PStr pystr | PList "json list"

fun reencode_elem :: "json \<Rightarrow> exn + pystr" where
  "reencode_elem (JStr s) = reencode s"
| "reencode_elem _ = Inl AttributeError"

fun safe_google_results :: "pyval \<Rightarrow> exn + pystr" where
  "safe_google_results (PList results) =
     (case comprehend reencode_elem results of
        Inl e \<Rightarrow> Inl e
      | Inr cleaned \<Rightarrow> Inr (json_dumps_strs cleaned))"
| "safe_google_results (PStr results) = reencode results"

section \<open>\<open>web_search\<close>\<close>

text \<open>
  What a run does to the outside world, in order: calls of \<open>DDGS().text\<close> and
  \<open>time.sleep\<close>. The provider is a parameter: its answer to a call depends on how many
  calls came before and on the arguments, and it may raise.
\<close>

datatype event = ProviderCall pystr int | Sleep nat

fun is_call :: "event \<Rightarrow> bool" where
  "is_call (ProviderCall _ _) = True"
| "is_call (Sleep _) = False"

definition provider_calls :: "event list \<Rightarrow> nat" where
  "provider_calls tr = length (filter is_call tr)"

definition sleeps :: "event list \<Rightarrow> nat" where
  "sleeps tr = length (filter (\<lambda>ev. \<not> is_call ev) tr)"

text \<open>The arguments of the calls of \<open>time.sleep\<close>, in order.\<close>

fun sleep_durations :: "event list \<Rightarrow> nat list" where
  "sleep_durations [] = []"
| "sleep_durations (ProviderCall _ _ # tr) = sleep_durations tr"
| "sleep_durations (Sleep d # tr) = d # sleep_durations tr"

text \<open>The trace of \<open>k\<close> rounds of a call followed by a sleep of one second.\<close>

definition round_trace :: "pystr \<Rightarrow> int \<Rightarrow> nat \<Rightarrow> event list" where
  "round_trace q n k = concat (replicate k [ProviderCall q n, Sleep 1])"

type_synonym provider = "nat \<Rightarrow> pystr \<Rightarrow> int \<Rightarrow> exn + pydict list"

text \<open>How the \<open>while\<close> loop ends: by its \<open>return\<close>, by an exception, or by falling
  through (the condition fails, or \<open>break\<close>) with the current \<open>search_results\<close>.\<close>

datatype loop_exit = Returned pystr | Raised exn | Proceed "pydict list"

function web_search_loop ::
  "provider \<Rightarrow> int \<Rightarrow> pystr \<Rightarrow> int \<Rightarrow> int \<Rightarrow> pydict list \<Rightarrow> event list
   \<Rightarrow> loop_exit \<times> event list" where
  "web_search_loop ddgs max_attempts query num_results attempts search_results tr =
     (if attempts < max_attempts then
        (if query = [] then (Returned (json_dumps_dicts search_results), tr)
         else
           (case ddgs (provider_calls tr) query num_results of
              Inl e \<Rightarrow> (Raised e, tr @ [ProviderCall query num_results])
            | Inr rs \<Rightarrow>
                if rs \<noteq> [] then (Proceed rs, tr @ [ProviderCall query num_results])
                else web_search_loop ddgs max_attempts query num_results (attempts + 1) rs
                       (tr @ [ProviderCall query num_results, Sleep 1])))
      else (Proceed search_results, tr))"
  by pat_completeness auto
termination
  by (relation "measure (\<lambda>(ddgs, max_attempts, query, num_results, attempts, rs, tr).
                   nat (max_attempts - attempts))") auto

declare web_search_loop.simps [simp del]

text \<open>The dictionary built for each raw result: \<open>title\<close>, \<open>url\<close> and, when the raw
  \<open>body\<close> is present and non-empty, \<open>exerpt\<close>.\<close>

record search_result =
  title :: pystr
  url :: pystr
  exerpt :: "pystr option"

definition reshape :: "pydict \<Rightarrow> exn + search_result" where
  "reshape r =
     (case map_of r (lit ''title'') of
        None \<Rightarrow> Inl (KeyError (lit ''title''))
      | Some t \<Rightarrow>
          (case map_of r (lit ''href'') of
             None \<Rightarrow> Inl (KeyError (lit ''href''))
           | Some h \<Rightarrow>
               Inr \<lparr>title = t, url = h,
                    exerpt = (case map_of r (lit ''body'') of
                                None \<Rightarrow> None
                              | Some b \<Rightarrow> if b \<noteq> [] then Some b else None)\<rparr>))"

definition render_block :: "search_result \<Rightarrow> pystr" where
  "render_block r =
     lit ''### \"'' @ title r @ lit ''\"\<newline>'' @
     lit ''**URL:** '' @ url r @ lit ''  \<newline>'' @
     lit ''**Excerpt:** '' @
     (case exerpt r of
        None \<Rightarrow> lit ''N/A''
      | Some e \<Rightarrow> if e \<noteq> [] then lit ''\"'' @ e @ lit ''\"'' else lit ''N/A'')"

definition render :: "search_result list \<Rightarrow> pystr" where
  "render rs = lit ''## Search results\<newline>'' @ py_join (lit ''\<newline>\<newline>'') (map render_block rs)"

text \<open>Everything after the loop: reshape, render, sanitize.\<close>

definition format_results :: "pydict list \<Rightarrow> exn + pystr" where
  "format_results search_results =
     (case comprehend reshape search_results of
        Inl e \<Rightarrow> Inl e
      | Inr rs \<Rightarrow> safe_google_results (PStr (render rs)))"

definition web_search ::
  "WebSearchConfiguration \<Rightarrow> provider \<Rightarrow> pystr \<Rightarrow> int \<Rightarrow> (exn + pystr) \<times> event list" where
  "web_search config ddgs query num_results =
     (case web_search_loop ddgs (duckduckgo_max_attempts config) query num_results 0 [] [] of
        (Returned s, tr) \<Rightarrow> (Inr s, tr)
      | (Raised e, tr) \<Rightarrow> (Inl e, tr)
      | (Proceed search_results, tr) \<Rightarrow> (format_results search_results, tr))"

section \<open>\<open>google\<close>\<close>

text \<open>\<open>d.get(key, default)\<close>: only a dictionary has the method.\<close>

fun py_get :: "json \<Rightarrow> pystr \<Rightarrow> json \<Rightarrow> exn + json" where
  "py_get (JObj kvs) key dflt = Inr (case map_of kvs key of None \<Rightarrow> dflt | Some v \<Rightarrow> v)"
| "py_get _ key dflt = Inl AttributeError"

text \<open>\<open>v == k\<close> for an integer \<open>k\<close>: numbers compare by value, \<open>True\<close> and \<open>False\<close> are
  1 and 0, and a value of another type is not equal.\<close>

fun py_eq_int :: "json \<Rightarrow> int \<Rightarrow> bool" where
  "py_eq_int (JInt n) k = (n = k)"
| "py_eq_int (JFloat x) k = (x = of_int k)"
| "py_eq_int (JBool b) k = ((if b then 1 else 0) = k)"
| "py_eq_int _ k = False"

text \<open>\<open>sub in s\<close> on strings.\<close>

fun is_substring :: "pystr \<Rightarrow> pystr \<Rightarrow> bool" where
  "is_substring sub [] = (sub = [])"
| "is_substring sub (c # cs) = (take (length sub) (c # cs) = sub \<or> is_substring sub cs)"

text \<open>\<open>key in v\<close> for a string \<open>key\<close>: a substring of a string, an element of a list, a key
  of a dictionary; the other values are not containers.\<close>

fun py_in :: "pystr \<Rightarrow> json \<Rightarrow> exn + bool" where
  "py_in key (JStr s) = Inr (is_substring key s)"
| "py_in key (JArr xs) = Inr (JStr key \<in> set xs)"
| "py_in key (JObj kvs) = Inr (key \<in> fst ` set kvs)"
| "py_in key _ = Inl TypeError"

text \<open>\<open>item["link"]\<close>: a missing key of a dictionary is a \<open>KeyError\<close>, and no other value
  takes a string subscript.\<close>

fun item_link :: "json \<Rightarrow> exn + json" where
  "item_link (JObj kvs) =
     (case map_of kvs (lit ''link'') of
        None \<Rightarrow> Inl (KeyError (lit ''link''))
      | Some v \<Rightarrow> Inr v)"
| "item_link _ = Inl TypeError"

text \<open>\<open>[item["link"] for item in search_results]\<close>: a list gives its elements; a string
  gives its characters and a dictionary its keys, which are strings and take no string
  subscript; the other values cannot be iterated.\<close>

fun links_of :: "json \<Rightarrow> exn + json list" where
  "links_of (JArr xs) = comprehend item_link xs"
| "links_of (JStr s) = (if s = [] then Inr [] else Inl TypeError)"
| "links_of (JObj kvs) = (if kvs = [] then Inr [] else Inl TypeError)"
| "links_of _ = Inl TypeError"

text \<open>
  The two library calls are parameters: \<open>execute\<close> stands for building the service and
  running the request (developer key, query, engine id, number of results), and
  \<open>json_loads\<close> for \<open>json.loads\<close>.
\<close>

type_synonym api = "pystr \<Rightarrow> pystr \<Rightarrow> pystr \<Rightarrow> int \<Rightarrow> exn + json"
type_synonym loads = "pystr \<Rightarrow> exn + json"

text \<open>The body of the \<open>try\<close>.\<close>

definition google_try :: "WebSearchConfiguration \<Rightarrow> api \<Rightarrow> pystr \<Rightarrow> int \<Rightarrow> exn + json list" where
  "google_try config execute query num_results =
     (case google_api_key config of
        None \<Rightarrow> Inl AssertionError
      | Some key \<Rightarrow>
          if key = [] then Inl AssertionError
          else
            (case google_custom_search_engine_id config of
               None \<Rightarrow> Inl AssertionError
             | Some cx \<Rightarrow>
                 if cx = [] then Inl AssertionError
                 else
                   (case execute key query cx num_results of
                      Inl e \<Rightarrow> Inl e
                    | Inr result \<Rightarrow>
                        (case py_get result (lit ''items'') (JArr []) of
                           Inl e \<Rightarrow> Inl e
                         | Inr search_results \<Rightarrow> links_of search_results))))"

text \<open>The \<open>except HttpError as e\<close> block; it always raises.\<close>

definition google_except :: "loads \<Rightarrow> HttpError_data \<Rightarrow> exn" where
  "google_except json_loads e =
     (case decode_utf8 (content e) of
        None \<Rightarrow> UnicodeDecodeError
      | Some text \<Rightarrow>
          (case json_loads text of
             Inl x \<Rightarrow> x
           | Inr error_details \<Rightarrow>
               (case py_get error_details (lit ''error'') (JObj []) of
                  Inl x \<Rightarrow> x
                | Inr err \<Rightarrow>
                    (case py_get err (lit ''code'') JNull of
                       Inl x \<Rightarrow> x
                     | Inr code \<Rightarrow>
                         if py_eq_int code 403 then
                           (case py_get error_details (lit ''error'') (JObj []) of
                              Inl x \<Rightarrow> x
                            | Inr err' \<Rightarrow>
                                (case py_get err' (lit ''message'') (JStr []) of
                                   Inl x \<Rightarrow> x
                                 | Inr msg \<Rightarrow>
                                     (case py_in (lit ''invalid API key'') msg of
                                        Inl x \<Rightarrow> x
                                      | Inr found \<Rightarrow>
                                          if found then
                                            ConfigurationError
                                              (lit ''The provided Google API key is invalid or missing.'')
                                          else HttpError e)))
                         else HttpError e))))"

text \<open>
  \<open>google\<close> is annotated \<open>str | list[str]\<close>; the value it returns is what
  \<open>safe_google_results\<close> returns.
\<close>

definition google ::
  "WebSearchConfiguration \<Rightarrow> api \<Rightarrow> loads \<Rightarrow> pystr \<Rightarrow> int \<Rightarrow> exn + pyval" where
  "google config execute json_loads query num_results =
     (case google_try config execute query num_results of
        Inl (HttpError e) \<Rightarrow> Inl (google_except json_loads e)
      | Inl x \<Rightarrow> Inl x
      | Inr search_results_links \<Rightarrow>
          (case safe_google_results (PList search_results_links) of
             Inl x \<Rightarrow> Inl x
           | Inr safe_message \<Rightarrow> Inr (PStr safe_message)))"

section \<open>Re-encoding is a filter\<close>

text \<open>
  Decoding what the encoder wrote gives back every code point that it did not skip: a
  code point is the sum of its six-bit groups, and the encoder's lead bytes are the ones
  the strict decoder accepts.
\<close>

lemma split3: "c = q * 64 + m \<Longrightarrow> q = a * 64 + b \<Longrightarrow> a * 4096 + b * 64 + m = (c::nat)"
  by simp

lemma split4:
  "c = q * 64 + m \<Longrightarrow> q = p * 64 + b \<Longrightarrow> p = a * 64 + d \<Longrightarrow>
   a * 262144 + d * 4096 + b * 64 + m = (c::nat)"
  by simp

lemma sextets3: "(c::nat) div 0x1000 * 0x1000 + c div 0x40 mod 0x40 * 0x40 + c mod 0x40 = c"
proof -
  have "c div 0x1000 = c div 0x40 div 0x40" by (simp add: div_mult2_eq)
  then show ?thesis
    using split3[of c "c div 64" "c mod 64" "c div 64 div 64" "c div 64 mod 64"] by simp
qed

lemma sextets4:
  "(c::nat) div 0x40000 * 0x40000 + c div 0x1000 mod 0x40 * 0x1000
     + c div 0x40 mod 0x40 * 0x40 + c mod 0x40 = c"
proof -
  have "c div 0x1000 = c div 0x40 div 0x40" "c div 0x40000 = c div 0x40 div 0x40 div 0x40"
    by (simp_all add: div_mult2_eq)
  then show ?thesis
    using split4[of c "c div 64" "c mod 64" "c div 64 div 64" "c div 64 mod 64"
        "c div 64 div 64 div 64" "c div 64 div 64 mod 64"]
    by simp
qed

lemma lead2: "0x80 \<le> c \<Longrightarrow> c < 0x800 \<Longrightarrow> 2 \<le> (c::nat) div 0x40 \<and> c div 0x40 < 0x20"
  by arith

lemma lead3: "c < 0x10000 \<Longrightarrow> (c::nat) div 0x1000 < 0x10"
  by arith

lemma lead4: "c < 0x110000 \<Longrightarrow> (c::nat) div 0x40000 < 5"
  by arith

lemma decode_two:
  assumes "0x80 \<le> c" "c < 0x800"
  shows "decode_utf8 ([0xC0 + c div 0x40, 0x80 + c mod 0x40] @ rest)
         = map_option (Cons c) (decode_utf8 rest)"
  using lead2[OF assms] by (simp add: is_cont_def)

lemma decode_three:
  assumes "0x800 \<le> c" "c < 0x10000" "\<not> is_surrogate c"
  shows "decode_utf8 ([0xE0 + c div 0x1000, 0x80 + c div 0x40 mod 0x40, 0x80 + c mod 0x40] @ rest)
         = map_option (Cons c) (decode_utf8 rest)"
  using lead3[OF assms(2)] assms by (simp add: is_cont_def Let_def sextets3)

lemma decode_four:
  assumes "0x10000 \<le> c" "c < 0x110000"
  shows "decode_utf8 ([0xF0 + c div 0x40000, 0x80 + c div 0x1000 mod 0x40,
                       0x80 + c div 0x40 mod 0x40, 0x80 + c mod 0x40] @ rest)
         = map_option (Cons c) (decode_utf8 rest)"
  using lead4[OF assms(2)] assms by (simp add: is_cont_def Let_def sextets4)

lemma encodable_iff: "encodable c \<longleftrightarrow> utf8_encode_char c \<noteq> None"
  by (auto simp: encodable_def utf8_encode_char_def is_surrogate_def)

lemma decode_encode_char:
  assumes "utf8_encode_char c = Some bs"
  shows "decode_utf8 (bs @ rest) = map_option (Cons c) (decode_utf8 rest)"
proof -
  consider (one) "c < 0x80" "bs = [c]"
    | (two) "0x80 \<le> c" "c < 0x800" "bs = [0xC0 + c div 0x40, 0x80 + c mod 0x40]"
    | (three) "0x800 \<le> c" "c < 0x10000" "\<not> is_surrogate c"
        "bs = [0xE0 + c div 0x1000, 0x80 + c div 0x40 mod 0x40, 0x80 + c mod 0x40]"
    | (four) "0x10000 \<le> c" "c < 0x110000"
        "bs = [0xF0 + c div 0x40000, 0x80 + c div 0x1000 mod 0x40,
               0x80 + c div 0x40 mod 0x40, 0x80 + c mod 0x40]"
    using assms unfolding utf8_encode_char_def by (auto split: if_splits)
  then show ?thesis
  proof cases
    case one
    then show ?thesis by simp
  next
    case two
    then show ?thesis using decode_two[of c rest] by simp
  next
    case three
    then show ?thesis using decode_three[of c rest] by simp
  next
    case four
    then show ?thesis using decode_four[of c rest] by simp
  qed
qed

lemma decode_encode: "decode_utf8 (encode_utf8_ignore s) = Some (filter encodable s)"
proof (induction s)
  case Nil
  show ?case by (simp add: encode_utf8_ignore_def)
next
  case (Cons c s)
  have step: "encode_utf8_ignore (c # s)
      = (case utf8_encode_char c of None \<Rightarrow> [] | Some bs \<Rightarrow> bs) @ encode_utf8_ignore s"
    by (simp add: encode_utf8_ignore_def)
  show ?case
  proof (cases "utf8_encode_char c")
    case None
    then show ?thesis using Cons step by (simp add: encodable_iff)
  next
    case (Some bs)
    then show ?thesis
      using Cons step decode_encode_char[OF Some, of "encode_utf8_ignore s"]
      by (simp add: encodable_iff)
  qed
qed

lemma reencode_filter: "reencode s = Inr (filter encodable s)"
  by (simp add: reencode_def decode_encode)

lemma comprehend_reencode_strs:
  "comprehend reencode_elem (map JStr xs) = Inr (map (filter encodable) xs)"
  by (induction xs) (simp_all add: reencode_filter)

lemma all_encodable_keep: "list_all encodable t \<Longrightarrow> filter encodable t = t"
  by (induction t) simp_all

lemma ascii_encodable: "list_all encodable (lit s)"
proof -
  have small: "(of_char c :: nat) < 256" for c :: char
    by (simp add: of_char_def)
  have "encodable (of_char c)" for c :: char
    unfolding encodable_def is_surrogate_def using small[of c] by linarith
  then show ?thesis by (simp add: lit_def list_all_iff)
qed

section \<open>Properties of the sanitizer\<close>

text \<open>
  C7. On a list of strings the sanitizer drops from each element what UTF-8 cannot carry
  and returns the JSON text of the cleaned list as one string, so that
  \<open>["a", "b"]\<close> gives \<open>["a", "b"]\<close> as text; a string that UTF-8 can carry
  is returned as it is, without JSON quoting, so that \<open>plain\<close> gives \<open>plain\<close>.
\<close>

theorem safe_google_results_spec:
  "safe_google_results (PList (map JStr xs)) = Inr (json_dumps_strs (map (filter encodable) xs))
   \<and> safe_google_results (PList [JStr (lit ''a''), JStr (lit ''b'')]) = Inr (lit ''[\"a\", \"b\"]'')
   \<and> (list_all encodable s \<longrightarrow> safe_google_results (PStr s) = Inr s)
   \<and> safe_google_results (PStr (lit ''plain'')) = Inr (lit ''plain'')"
proof -
  have list: "safe_google_results (PList (map JStr ys))
              = Inr (json_dumps_strs (map (filter encodable) ys))" for ys
    by (simp add: comprehend_reencode_strs)
  have ab: "safe_google_results (PList [JStr (lit ''a''), JStr (lit ''b'')])
            = Inr (lit ''[\"a\", \"b\"]'')"
    using list[of "[lit ''a'', lit ''b'']"]
    by (simp add: lit_def encodable_def is_surrogate_def json_dumps_strs_def json_array_def
        json_string_def json_escape_def)
  have plain: "safe_google_results (PStr (lit ''plain'')) = Inr (lit ''plain'')"
    by (simp add: reencode_filter all_encodable_keep ascii_encodable)
  show ?thesis using list ab plain by (simp add: reencode_filter all_encodable_keep)
qed

theorem safe_google_results_spec_witness:
  "list_all encodable (lit ''plain'')
   \<and> safe_google_results (PStr (lit ''plain'')) = Inr (lit ''plain'')
   \<and> safe_google_results (PList (map JStr [[0x61, 0xD800, 0x62]])) = Inr (lit ''[\"ab\"]'')"
proof -
  have h: "list_all encodable (lit ''plain'')"
    by (rule ascii_encodable)
  have "safe_google_results (PList (map JStr [[0x61, 0xD800, 0x62]]))
        = Inr (json_dumps_strs (map (filter encodable) [[0x61, 0xD800, 0x62]]))"
    using safe_google_results_spec[of "[[0x61, 0xD800, 0x62]]" "lit ''plain''"] by blast
  moreover have "json_dumps_strs (map (filter encodable) [[0x61, 0xD800, 0x62]]) = lit ''[\"ab\"]''"
    by (simp add: lit_def encodable_def is_surrogate_def json_dumps_strs_def json_array_def
        json_string_def json_escape_def)
  ultimately show ?thesis
    using h safe_google_results_spec[of "[[0x61, 0xD800, 0x62]]" "lit ''plain''"] by simp
qed

text \<open>
  C9. The sanitizer is idempotent on strings: it returns a string, and sanitizing that
  string returns it again.
\<close>

theorem safe_google_results_idempotent:
  "\<exists>t. safe_google_results (PStr s) = Inr t \<and> safe_google_results (PStr t) = Inr t"
  by (simp add: reencode_filter)

section \<open>The retry loop\<close>

text \<open>
  The loop is unfolded one iteration at a time. While the provider answers with the empty
  list the loop runs one round after the other until the attempts are used up; each round
  adds one call and one sleep to the trace.
\<close>

lemma provider_calls_simps [simp]:
  "provider_calls [] = 0"
  "provider_calls (ProviderCall q n # tr) = Suc (provider_calls tr)"
  "provider_calls (Sleep d # tr) = provider_calls tr"
  "provider_calls (tr @ tr') = provider_calls tr + provider_calls tr'"
  by (simp_all add: provider_calls_def)

lemma sleeps_simps [simp]:
  "sleeps [] = 0"
  "sleeps (ProviderCall q n # tr) = sleeps tr"
  "sleeps (Sleep d # tr) = Suc (sleeps tr)"
  "sleeps (tr @ tr') = sleeps tr + sleeps tr'"
  by (simp_all add: sleeps_def)

lemma round_trace_simps [simp]:
  "round_trace q n 0 = []"
  "round_trace q n (Suc k) = ProviderCall q n # Sleep 1 # round_trace q n k"
  by (simp_all add: round_trace_def)

lemma round_trace_counts [simp]:
  "provider_calls (round_trace q n k) = k" "sleeps (round_trace q n k) = k"
  by (induction k) simp_all

lemma loop_all_empty:
  assumes "query \<noteq> []"
    and "\<forall>i. provider_calls tr \<le> i \<and> i < provider_calls tr + nat (m - a) \<longrightarrow> ddgs i query n = Inr []"
  shows "web_search_loop ddgs m query n a rs tr
         = (Proceed (if a < m then [] else rs), tr @ round_trace query n (nat (m - a)))"
  using assms
proof (induction ddgs m query n a rs tr rule: web_search_loop.induct)
  case (1 ddgs m query n a rs tr)
  show ?case
  proof (cases "a < m")
    case False
    then show ?thesis
      by (subst web_search_loop.simps) simp
  next
    case True
    have here: "ddgs (provider_calls tr) query n = Inr []"
      using "1.prems"(2) True by simp
    have later: "\<forall>i. provider_calls (tr @ [ProviderCall query n, Sleep 1]) \<le> i
          \<and> i < provider_calls (tr @ [ProviderCall query n, Sleep 1]) + nat (m - (a + 1))
          \<longrightarrow> ddgs i query n = Inr []"
      using "1.prems"(2) True by auto
    have ih: "web_search_loop ddgs m query n (a + 1) [] (tr @ [ProviderCall query n, Sleep 1])
        = (Proceed (if a + 1 < m then [] else []),
           (tr @ [ProviderCall query n, Sleep 1]) @ round_trace query n (nat (m - (a + 1))))"
      using "1.IH"[OF True "1.prems"(1) here _ "1.prems"(1) later] by simp
    have unroll: "nat (m - a) = Suc (nat (m - (a + 1)))"
      using True by simp
    show ?thesis
      using True "1.prems"(1) here ih
      by (subst web_search_loop.simps) (simp add: unroll)
  qed
qed

lemma sleep_durations_append [simp]:
  "sleep_durations (tr @ tr') = sleep_durations tr @ sleep_durations tr'"
  by (induction tr rule: sleep_durations.induct) simp_all

lemma loop_sleeps_unit:
  "sleep_durations tr = replicate (sleeps tr) 1 \<Longrightarrow>
   sleep_durations (snd (web_search_loop ddgs m query n a rs tr))
   = replicate (sleeps (snd (web_search_loop ddgs m query n a rs tr))) 1"
proof (induction ddgs m query n a rs tr rule: web_search_loop.induct)
  case (1 ddgs m query n a rs tr)
  show ?case
  proof (cases "a < m \<and> query \<noteq> []")
    case False
    then show ?thesis using "1.prems" by (subst (1 2) web_search_loop.simps) auto
  next
    case True
    show ?thesis
    proof (cases "ddgs (provider_calls tr) query n")
      case (Inl e)
      then show ?thesis using True "1.prems" by (subst (1 2) web_search_loop.simps) simp
    next
      case (Inr got)
      show ?thesis
      proof (cases "got = []")
        case False
        then show ?thesis using True Inr "1.prems" by (subst (1 2) web_search_loop.simps) simp
      next
        case empty: True
        have "sleep_durations (tr @ [ProviderCall query n, Sleep 1])
              = replicate (sleeps (tr @ [ProviderCall query n, Sleep 1])) 1"
          using "1.prems" by (simp add: replicate_append_same)
        then have "sleep_durations (snd (web_search_loop ddgs m query n (a + 1) got
                      (tr @ [ProviderCall query n, Sleep 1])))
              = replicate (sleeps (snd (web_search_loop ddgs m query n (a + 1) got
                      (tr @ [ProviderCall query n, Sleep 1])))) 1"
          using "1.IH"[of got] True Inr empty by simp
        then show ?thesis
          using True Inr empty by (subst (1 2) web_search_loop.simps) simp
      qed
    qed
  qed
qed

lemma loop_sleeps_below:
  assumes "query \<noteq> []"
    and "\<exists>i. provider_calls tr \<le> i \<and> i < provider_calls tr + nat (m - a)
             \<and> ddgs i query n \<noteq> Inr []"
  shows "Suc (sleeps (snd (web_search_loop ddgs m query n a rs tr))) \<le> sleeps tr + nat (m - a)"
  using assms
proof (induction ddgs m query n a rs tr rule: web_search_loop.induct)
  case (1 ddgs m query n a rs tr)
  from "1.prems"(2) have am: "a < m" by auto
  show ?case
  proof (cases "ddgs (provider_calls tr) query n")
    case (Inl e)
    then show ?thesis using am "1.prems"(1) by (subst web_search_loop.simps) simp
  next
    case (Inr got)
    show ?thesis
    proof (cases "got = []")
      case False
      then show ?thesis using am Inr "1.prems"(1) by (subst web_search_loop.simps) simp
    next
      case empty: True
      from "1.prems"(2) obtain i where i: "provider_calls tr \<le> i"
          "i < provider_calls tr + nat (m - a)" "ddgs i query n \<noteq> Inr []"
        by blast
      have "i \<noteq> provider_calls tr" using i(3) Inr empty by auto
      then have "provider_calls (tr @ [ProviderCall query n, Sleep 1]) \<le> i
          \<and> i < provider_calls (tr @ [ProviderCall query n, Sleep 1]) + nat (m - (a + 1))
          \<and> ddgs i query n \<noteq> Inr []"
        using i am by auto
      then have ex: "\<exists>i. provider_calls (tr @ [ProviderCall query n, Sleep 1]) \<le> i
          \<and> i < provider_calls (tr @ [ProviderCall query n, Sleep 1]) + nat (m - (a + 1))
          \<and> ddgs i query n \<noteq> Inr []"
        by blast
      have "Suc (sleeps (snd (web_search_loop ddgs m query n (a + 1) got
                 (tr @ [ProviderCall query n, Sleep 1]))))
            \<le> sleeps (tr @ [ProviderCall query n, Sleep 1]) + nat (m - (a + 1))"
        using "1.IH"[OF am "1.prems"(1) Inr _ "1.prems"(1) ex] empty by simp
      moreover have "nat (m - a) = Suc (nat (m - (a + 1)))" using am by auto
      ultimately show ?thesis
        using am Inr empty "1.prems"(1) by (subst web_search_loop.simps) simp
    qed
  qed
qed

lemma web_search_trace:
  "snd (web_search config ddgs query n)
   = snd (web_search_loop ddgs (duckduckgo_max_attempts config) query n 0 [] [])"
  by (simp add: web_search_def split: prod.splits loop_exit.splits)

lemma loop_first_hit:
  assumes "query \<noteq> []" "0 < m" "ddgs 0 query n = Inr got" "got \<noteq> []"
  shows "web_search_loop ddgs m query n 0 [] [] = (Proceed got, [ProviderCall query n])"
  using assms by (subst web_search_loop.simps) simp

lemma format_results_empty: "format_results [] = Inr (lit ''## Search results\<newline>'')"
  by (simp add: format_results_def render_def reencode_filter all_encodable_keep ascii_encodable)

lemma web_search_all_empty:
  assumes "query \<noteq> []"
    and "\<forall>i < nat (duckduckgo_max_attempts config). ddgs i query n = Inr []"
  shows "web_search config ddgs query n
         = (Inr (lit ''## Search results\<newline>''),
            round_trace query n (nat (duckduckgo_max_attempts config)))"
proof -
  have "\<forall>i. provider_calls [] \<le> i \<and> i < provider_calls [] + nat (duckduckgo_max_attempts config - 0)
         \<longrightarrow> ddgs i query n = Inr []"
    using assms(2) by simp
  then show ?thesis
    using assms(1)
      loop_all_empty[of query "[]" "duckduckgo_max_attempts config" 0 ddgs n "[]"]
    by (simp add: web_search_def format_results_empty)
qed

section \<open>Properties of \<open>web_search\<close>\<close>

lemma reshape_A:
  "comprehend reshape
     [[(lit ''title'', lit ''A''), (lit ''href'', lit ''u1''), (lit ''body'', lit ''b1'')]]
   = Inr [\<lparr>title = lit ''A'', url = lit ''u1'', exerpt = Some (lit ''b1'')\<rparr>]"
  by (simp add: reshape_def lit_def)

lemma render_A:
  "render [\<lparr>title = lit ''A'', url = lit ''u1'', exerpt = Some (lit ''b1'')\<rparr>]
   = lit ''## Search results\<newline>### \"A\"\<newline>**URL:** u1  \<newline>**Excerpt:** \"b1\"''"
  by (simp add: render_def render_block_def lit_def)

lemma format_A:
  "format_results
     [[(lit ''title'', lit ''A''), (lit ''href'', lit ''u1''), (lit ''body'', lit ''b1'')]]
   = Inr (lit ''## Search results\<newline>### \"A\"\<newline>**URL:** u1  \<newline>**Excerpt:** \"b1\"'')"
  using reshape_A render_A
  by (simp add: format_results_def reencode_filter all_encodable_keep ascii_encodable)

text \<open>
  C2, as the code has it. The result list with the one result of title \<open>A\<close>, href
  \<open>u1\<close> and body \<open>b1\<close> renders to the header line, one line break and the block:
  there is no blank line between the header and the first block. A run of \<open>web_search\<close>
  whose provider answers with that list returns this string after one call.
\<close>

theorem render_single_result:
  "format_results
     [[(lit ''title'', lit ''A''), (lit ''href'', lit ''u1''), (lit ''body'', lit ''b1'')]]
   = Inr (lit ''## Search results\<newline>### \"A\"\<newline>**URL:** u1  \<newline>**Excerpt:** \"b1\"'')
   \<and> web_search \<lparr>google_api_key = None, google_custom_search_engine_id = None,
                  duckduckgo_max_attempts = 3\<rparr>
       (\<lambda>i q n. Inr [[(lit ''title'', lit ''A''), (lit ''href'', lit ''u1''), (lit ''body'', lit ''b1'')]])
       (lit ''q'') 8
     = (Inr (lit ''## Search results\<newline>### \"A\"\<newline>**URL:** u1  \<newline>**Excerpt:** \"b1\"''),
        [ProviderCall (lit ''q'') 8])"
proof -
  have q: "lit ''q'' \<noteq> []" by (simp add: lit_def)
  have "web_search_loop
          (\<lambda>i q n. Inr [[(lit ''title'', lit ''A''), (lit ''href'', lit ''u1''), (lit ''body'', lit ''b1'')]])
          3 (lit ''q'') 8 0 [] []
        = (Proceed [[(lit ''title'', lit ''A''), (lit ''href'', lit ''u1''), (lit ''body'', lit ''b1'')]],
           [ProviderCall (lit ''q'') 8])"
    using q by (intro loop_first_hit) simp_all
  then show ?thesis using format_A by (simp add: web_search_def)
qed

text \<open>
  C2, as the claim states it, fails: the rendering of that list is not the string with a
  blank line after the header.
\<close>

theorem render_single_result_counterexample:
  "format_results
     [[(lit ''title'', lit ''A''), (lit ''href'', lit ''u1''), (lit ''body'', lit ''b1'')]]
   \<noteq> Inr (lit ''## Search results\<newline>\<newline>### \"A\"\<newline>**URL:** u1  \<newline>**Excerpt:** \"b1\"'')"
proof -
  have "lit ''## Search results\<newline>### \"A\"\<newline>**URL:** u1  \<newline>**Excerpt:** \"b1\"''
     \<noteq> lit ''## Search results\<newline>\<newline>### \"A\"\<newline>**URL:** u1  \<newline>**Excerpt:** \"b1\"''"
    by (simp add: lit_def)
  then show ?thesis using format_A by simp
qed

text \<open>
  C5. With at least one attempt configured, \<open>web_search\<close> on the empty query returns
  the text \<open>[]\<close> and neither calls the provider nor sleeps.
\<close>

theorem web_search_empty_query:
  "1 \<le> duckduckgo_max_attempts config \<Longrightarrow>
   web_search config ddgs [] num_results = (Inr (lit ''[]''), [])"
  by (simp add: web_search_def web_search_loop.simps json_dumps_dicts_def json_array_def lit_def)

theorem web_search_empty_query_witness:
  "(1::int) \<le> 3 \<and>
   web_search \<lparr>google_api_key = None, google_custom_search_engine_id = None,
                duckduckgo_max_attempts = 3\<rparr> (\<lambda>i q n. Inr []) [] 8
   = (Inr (lit ''[]''), [])"
  using web_search_empty_query
    [of "\<lparr>google_api_key = None, google_custom_search_engine_id = None,
          duckduckgo_max_attempts = 3\<rparr>" "\<lambda>i q n. Inr []" 8]
  by simp

text \<open>
  C10. With no attempt configured (\<open>duckduckgo_max_attempts\<close> at most 0) the loop body,
  and with it the test for the empty query, never runs: for every query, the empty one
  too, \<open>web_search\<close> makes no provider call and returns the header line alone, which
  is not the text \<open>[]\<close>.
\<close>

theorem web_search_no_attempts:
  "duckduckgo_max_attempts config \<le> 0 \<Longrightarrow>
   web_search config ddgs query num_results = (Inr (lit ''## Search results\<newline>''), [])
   \<and> lit ''## Search results\<newline>'' \<noteq> lit ''[]''"
  by (simp add: web_search_def web_search_loop.simps format_results_empty) (simp add: lit_def)

theorem web_search_no_attempts_witness:
  "(0::int) \<le> 0 \<and>
   web_search \<lparr>google_api_key = None, google_custom_search_engine_id = None,
                duckduckgo_max_attempts = 0\<rparr> (\<lambda>i q n. Inr []) [] 8
   = (Inr (lit ''## Search results\<newline>''), [])"
  using web_search_no_attempts
    [of "\<lparr>google_api_key = None, google_custom_search_engine_id = None,
          duckduckgo_max_attempts = 0\<rparr>" "\<lambda>i q n. Inr []" "[]" 8]
  by simp

text \<open>
  C6. For a non-empty query and at least one attempt configured: when the provider
  answers every attempt with the empty list, \<open>web_search\<close> raises nothing, returns
  the header line alone and has called the provider exactly \<open>duckduckgo_max_attempts\<close>
  times; when the first answer is a non-empty list, the provider is called exactly once.
\<close>

theorem web_search_call_counts:
  assumes "query \<noteq> []" and "1 \<le> duckduckgo_max_attempts config"
  shows "((\<forall>i < nat (duckduckgo_max_attempts config). ddgs i query n = Inr []) \<longrightarrow>
            fst (web_search config ddgs query n) = Inr (lit ''## Search results\<newline>'')
            \<and> int (provider_calls (snd (web_search config ddgs query n)))
                = duckduckgo_max_attempts config)
         \<and> (\<forall>got. ddgs 0 query n = Inr got \<and> got \<noteq> [] \<longrightarrow>
               provider_calls (snd (web_search config ddgs query n)) = 1)"
proof (intro conjI impI allI)
  assume e: "\<forall>i < nat (duckduckgo_max_attempts config). ddgs i query n = Inr []"
  show "fst (web_search config ddgs query n) = Inr (lit ''## Search results\<newline>'')"
    using web_search_all_empty[of query config ddgs n] assms(1) e by simp
  show "int (provider_calls (snd (web_search config ddgs query n)))
          = duckduckgo_max_attempts config"
    using web_search_all_empty[of query config ddgs n] assms e by simp
next
  fix got
  assume "ddgs 0 query n = Inr got \<and> got \<noteq> []"
  then have "web_search_loop ddgs (duckduckgo_max_attempts config) query n 0 [] []
             = (Proceed got, [ProviderCall query n])"
    using loop_first_hit[of query "duckduckgo_max_attempts config" ddgs n got] assms by simp
  then show "provider_calls (snd (web_search config ddgs query n)) = 1"
    by (simp add: web_search_def)
qed

theorem web_search_call_counts_witness:
  "lit ''q'' \<noteq> []
   \<and> fst (web_search \<lparr>google_api_key = None, google_custom_search_engine_id = None,
                duckduckgo_max_attempts = 3\<rparr> (\<lambda>i q n. Inr []) (lit ''q'') 8)
       = Inr (lit ''## Search results\<newline>'')
   \<and> int (provider_calls (snd (web_search \<lparr>google_api_key = None,
                google_custom_search_engine_id = None,
                duckduckgo_max_attempts = 3\<rparr> (\<lambda>i q n. Inr []) (lit ''q'') 8))) = 3
   \<and> provider_calls (snd (web_search \<lparr>google_api_key = None,
                google_custom_search_engine_id = None, duckduckgo_max_attempts = 3\<rparr>
                (\<lambda>i q n. Inr [[(lit ''title'', lit ''A''), (lit ''href'', lit ''u1'')]])
                (lit ''q'') 8)) = 1"
proof -
  have q: "lit ''q'' \<noteq> []" by (simp add: lit_def)
  show ?thesis
    using q
      web_search_call_counts[of "lit ''q''" "\<lparr>google_api_key = None,
          google_custom_search_engine_id = None, duckduckgo_max_attempts = 3\<rparr>"
          "\<lambda>i q n. Inr []" 8]
      web_search_call_counts[of "lit ''q''" "\<lparr>google_api_key = None,
          google_custom_search_engine_id = None, duckduckgo_max_attempts = 3\<rparr>"
          "\<lambda>i q n. Inr [[(lit ''title'', lit ''A''), (lit ''href'', lit ''u1'')]]" 8]
    by simp
qed

text \<open>
  C3, as the code has it. For a non-empty query and at least one attempt configured, every
  sleep of a run lasts one second, and the run sleeps at most
  \<open>duckduckgo_max_attempts - 1\<close> times, except when the provider answers every attempt
  with the empty list: that run sleeps exactly \<open>duckduckgo_max_attempts\<close> times, since
  the loop sleeps after the last empty attempt too.
\<close>

theorem web_search_sleeps:
  assumes "query \<noteq> []" and "1 \<le> duckduckgo_max_attempts config"
  shows "sleep_durations (snd (web_search config ddgs query n))
           = replicate (sleeps (snd (web_search config ddgs query n))) 1
         \<and> ((\<forall>i < nat (duckduckgo_max_attempts config). ddgs i query n = Inr []) \<longrightarrow>
              int (sleeps (snd (web_search config ddgs query n))) = duckduckgo_max_attempts config)
         \<and> (\<not> (\<forall>i < nat (duckduckgo_max_attempts config). ddgs i query n = Inr []) \<longrightarrow>
              int (sleeps (snd (web_search config ddgs query n)))
                \<le> duckduckgo_max_attempts config - 1)"
proof (intro conjI impI)
  show "sleep_durations (snd (web_search config ddgs query n))
           = replicate (sleeps (snd (web_search config ddgs query n))) 1"
    unfolding web_search_trace by (rule loop_sleeps_unit) simp
next
  assume e: "\<forall>i < nat (duckduckgo_max_attempts config). ddgs i query n = Inr []"
  show "int (sleeps (snd (web_search config ddgs query n))) = duckduckgo_max_attempts config"
    using web_search_all_empty[of query config ddgs n] assms e by simp
next
  assume "\<not> (\<forall>i < nat (duckduckgo_max_attempts config). ddgs i query n = Inr [])"
  then have "\<exists>i. provider_calls [] \<le> i
        \<and> i < provider_calls [] + nat (duckduckgo_max_attempts config - 0)
        \<and> ddgs i query n \<noteq> Inr []"
    by auto
  then have "Suc (sleeps (snd (web_search_loop ddgs (duckduckgo_max_attempts config) query n 0 [] [])))
        \<le> sleeps [] + nat (duckduckgo_max_attempts config - 0)"
    using loop_sleeps_below[of query "[]" "duckduckgo_max_attempts config" 0 ddgs n "[]"] assms(1)
    by blast
  then show "int (sleeps (snd (web_search config ddgs query n)))
                \<le> duckduckgo_max_attempts config - 1"
    unfolding web_search_trace using assms(2) by simp
qed

theorem web_search_sleeps_witness:
  "lit ''q'' \<noteq> []
   \<and> sleep_durations (snd (web_search \<lparr>google_api_key = None,
                google_custom_search_engine_id = None,
                duckduckgo_max_attempts = 3\<rparr> (\<lambda>i q n. Inr []) (lit ''q'') 8)) = [1, 1, 1]
   \<and> int (sleeps (snd (web_search \<lparr>google_api_key = None,
                google_custom_search_engine_id = None,
                duckduckgo_max_attempts = 3\<rparr> (\<lambda>i q n. Inr []) (lit ''q'') 8))) = 3
   \<and> int (sleeps (snd (web_search \<lparr>google_api_key = None,
                google_custom_search_engine_id = None, duckduckgo_max_attempts = 3\<rparr>
                (\<lambda>i q n. if i = 1 then Inr [[(lit ''title'', lit ''A''), (lit ''href'', lit ''u1'')]]
                          else Inr [])
                (lit ''q'') 8))) \<le> 3 - 1"
proof -
  have q: "lit ''q'' \<noteq> []" by (simp add: lit_def)
  have hit: "\<not> (\<forall>i < nat 3.
        (\<lambda>i q n. if i = 1 then Inr [[(lit ''title'', lit ''A''), (lit ''href'', lit ''u1'')]]
                  else (Inr [] :: exn + pydict list)) i (lit ''q'') (8::int) = Inr [])"
    by (auto intro!: exI[of _ 1])
  have three: "replicate 3 (1::nat) = [1, 1, 1]" by (simp add: numeral_3_eq_3)
  show ?thesis
    using q hit three
      web_search_sleeps[of "lit ''q''" "\<lparr>google_api_key = None,
          google_custom_search_engine_id = None, duckduckgo_max_attempts = 3\<rparr>"
          "\<lambda>i q n. Inr []" 8]
      web_search_sleeps[of "lit ''q''" "\<lparr>google_api_key = None,
          google_custom_search_engine_id = None, duckduckgo_max_attempts = 3\<rparr>"
          "\<lambda>i q n. if i = 1 then Inr [[(lit ''title'', lit ''A''), (lit ''href'', lit ''u1'')]]
                    else Inr []" 8]
    by simp
qed

text \<open>
  C3, as the claim states it, fails: with three attempts and a provider that always
  answers with the empty list, the run sleeps three times, more than two.
\<close>

theorem web_search_sleeps_counterexample:
  "\<not> int (sleeps (snd (web_search \<lparr>google_api_key = None,
                google_custom_search_engine_id = None,
                duckduckgo_max_attempts = 3\<rparr> (\<lambda>i q n. Inr []) (lit ''q'') 8))) \<le> 3 - 1"
proof -
  have q: "lit ''q'' \<noteq> []" by (simp add: lit_def)
  show ?thesis
    using q
      web_search_all_empty[of "lit ''q''" "\<lparr>google_api_key = None,
          google_custom_search_engine_id = None, duckduckgo_max_attempts = 3\<rparr>"
          "\<lambda>i q n. Inr []" 8]
    by simp
qed

section \<open>Properties of \<open>google\<close>\<close>

lemma comprehend_all_ok: "map f xs = map Inr ys \<Longrightarrow> comprehend f xs = Inr ys"
proof (induction xs arbitrary: ys)
  case Nil
  then show ?case by simp
next
  case (Cons x xs)
  then obtain y ys' where ys: "ys = y # ys'" "f x = Inr y" "map f xs = map Inr ys'"
    by (cases ys) auto
  with Cons.IH[of ys'] show ?case by simp
qed

lemma take_length_eq_iff: "take (length sub) s = sub \<longleftrightarrow> (\<exists>suf. s = sub @ suf)"
  by (metis append_eq_conv_conj append_take_drop_id)

lemma is_substring_iff: "is_substring sub s \<longleftrightarrow> (\<exists>pre suf. s = pre @ sub @ suf)"
proof (induction s)
  case Nil
  show ?case by auto
next
  case (Cons c cs)
  have "(\<exists>pre suf. c # cs = pre @ sub @ suf)
        \<longleftrightarrow> (\<exists>suf. c # cs = sub @ suf) \<or> (\<exists>pre suf. cs = pre @ sub @ suf)"
  proof
    assume "\<exists>pre suf. c # cs = pre @ sub @ suf"
    then obtain pre suf where e: "c # cs = pre @ sub @ suf" by blast
    show "(\<exists>suf. c # cs = sub @ suf) \<or> (\<exists>pre suf. cs = pre @ sub @ suf)"
    proof (cases pre)
      case Nil
      with e show ?thesis by auto
    next
      case (Cons p pre')
      with e have "cs = pre' @ sub @ suf" by simp
      then show ?thesis by blast
    qed
  next
    assume "(\<exists>suf. c # cs = sub @ suf) \<or> (\<exists>pre suf. cs = pre @ sub @ suf)"
    then show "\<exists>pre suf. c # cs = pre @ sub @ suf"
    proof
      assume "\<exists>suf. c # cs = sub @ suf"
      then obtain suf where "c # cs = [] @ sub @ suf" by auto
      then show ?thesis by blast
    next
      assume "\<exists>pre suf. cs = pre @ sub @ suf"
      then obtain pre suf where "c # cs = (c # pre) @ sub @ suf" by auto
      then show ?thesis by blast
    qed
  qed
  then show ?case using Cons by (simp add: take_length_eq_iff del: take_Suc_Cons)
qed

lemma google_never_list: "google config execute json_loads query n \<noteq> Inr (PList xs)"
  by (simp add: google_def split: sum.splits exn.splits)

lemma google_try_ok:
  assumes "google_api_key config = Some key" "key \<noteq> []"
    and "google_custom_search_engine_id config = Some cx" "cx \<noteq> []"
    and "execute key query cx n = Inr (JObj kvs)"
    and "(case map_of kvs (lit ''items'') of None \<Rightarrow> JArr [] | Some v \<Rightarrow> v) = JArr its"
    and "map item_link its = map Inr links"
  shows "google_try config execute query n = Inr links"
  using assms by (simp add: google_try_def comprehend_all_ok)

lemma google_example:
  "google \<lparr>google_api_key = Some (lit ''k''), google_custom_search_engine_id = Some (lit ''cx''),
           duckduckgo_max_attempts = 3\<rparr>
     (\<lambda>key q cx n. Inr (JObj [(lit ''items'', JArr [JObj [(lit ''link'', JStr (lit ''u1''))]])]))
     (\<lambda>s. Inl JSONDecodeError) (lit ''q'') 8
   = Inr (PStr (lit ''[\"u1\"]''))"
proof -
  have k: "lit ''k'' \<noteq> []" "lit ''cx'' \<noteq> []" by (simp_all add: lit_def)
  have "google_try \<lparr>google_api_key = Some (lit ''k''), google_custom_search_engine_id = Some (lit ''cx''),
           duckduckgo_max_attempts = 3\<rparr>
     (\<lambda>key q cx n. Inr (JObj [(lit ''items'', JArr [JObj [(lit ''link'', JStr (lit ''u1''))]])]))
     (lit ''q'') 8 = Inr [JStr (lit ''u1'')]"
    using k by (simp add: google_try_def)
  moreover have "json_dumps_strs [lit ''u1''] = lit ''[\"u1\"]''"
    by (simp add: lit_def json_dumps_strs_def json_array_def json_string_def json_escape_def)
  ultimately show ?thesis
    using comprehend_reencode_strs[of "[lit ''u1'']"]
    by (simp add: google_def all_encodable_keep ascii_encodable)
qed


text \<open>
  C1, as the code has it. \<open>google\<close> never returns a list. When both secrets are set, the
  request succeeds with a dictionary and every item of its \<open>items\<close> (none, when the key
  is missing) has a string under \<open>link\<close>, \<open>google\<close> returns one string: the JSON
  text of the list of the sanitized links.
\<close>

theorem google_returns_json_text:
  "(\<forall>xs. google config execute json_loads query n \<noteq> Inr (PList xs))
   \<and> (google_api_key config = Some key \<and> key \<noteq> []
      \<and> google_custom_search_engine_id config = Some cx \<and> cx \<noteq> []
      \<and> execute key query cx n = Inr (JObj kvs)
      \<and> (case map_of kvs (lit ''items'') of None \<Rightarrow> JArr [] | Some v \<Rightarrow> v) = JArr its
      \<and> map item_link its = map (\<lambda>u. Inr (JStr u)) urls
      \<longrightarrow> google config execute json_loads query n
          = Inr (PStr (json_dumps_strs (map (filter encodable) urls))))"
proof (intro conjI allI impI)
  fix xs show "google config execute json_loads query n \<noteq> Inr (PList xs)"
    by (rule google_never_list)
next
  assume h: "google_api_key config = Some key \<and> key \<noteq> []
      \<and> google_custom_search_engine_id config = Some cx \<and> cx \<noteq> []
      \<and> execute key query cx n = Inr (JObj kvs)
      \<and> (case map_of kvs (lit ''items'') of None \<Rightarrow> JArr [] | Some v \<Rightarrow> v) = JArr its
      \<and> map item_link its = map (\<lambda>u. Inr (JStr u)) urls"
  then have "map item_link its = map Inr (map JStr urls)" by simp
  with h have "google_try config execute query n = Inr (map JStr urls)"
    using google_try_ok[of config key cx execute query n kvs its "map JStr urls"] by blast
  then show "google config execute json_loads query n
          = Inr (PStr (json_dumps_strs (map (filter encodable) urls)))"
    by (simp add: google_def comprehend_reencode_strs)
qed

theorem google_returns_json_text_witness:
  "google \<lparr>google_api_key = Some (lit ''k''), google_custom_search_engine_id = Some (lit ''cx''),
           duckduckgo_max_attempts = 3\<rparr>
     (\<lambda>key q cx n. Inr (JObj [(lit ''items'', JArr [JObj [(lit ''link'', JStr (lit ''u1''))]])]))
     (\<lambda>s. Inl JSONDecodeError) (lit ''q'') 8
   = Inr (PStr (json_dumps_strs [lit ''u1'']))"
proof -
  have k: "lit ''k'' \<noteq> []" "lit ''cx'' \<noteq> []" by (simp_all add: lit_def)
  have keep: "filter encodable (lit ''u1'') = lit ''u1''"
    by (simp add: all_encodable_keep ascii_encodable)
  show ?thesis
    using k keep
      google_returns_json_text[of
        "\<lparr>google_api_key = Some (lit ''k''), google_custom_search_engine_id = Some (lit ''cx''),
          duckduckgo_max_attempts = 3\<rparr>"
        "\<lambda>key q cx n. Inr (JObj [(lit ''items'', JArr [JObj [(lit ''link'', JStr (lit ''u1''))]])])"
        "\<lambda>s. Inl JSONDecodeError" "lit ''q''" 8 "lit ''k''" "lit ''cx''"
        "[(lit ''items'', JArr [JObj [(lit ''link'', JStr (lit ''u1''))]])]"
        "[JObj [(lit ''link'', JStr (lit ''u1''))]]" "[lit ''u1'']"]
    by simp
qed

text \<open>
  C1, as the claim states it, fails: for a response with the one link \<open>u1\<close> the value
  returned is the string \<open>["u1"]\<close>, not the list of the string \<open>u1\<close>.
\<close>

theorem google_returns_list_counterexample:
  "google \<lparr>google_api_key = Some (lit ''k''), google_custom_search_engine_id = Some (lit ''cx''),
           duckduckgo_max_attempts = 3\<rparr>
     (\<lambda>key q cx n. Inr (JObj [(lit ''items'', JArr [JObj [(lit ''link'', JStr (lit ''u1''))]])]))
     (\<lambda>s. Inl JSONDecodeError) (lit ''q'') 8
   = Inr (PStr (lit ''[\"u1\"]''))
   \<and> google \<lparr>google_api_key = Some (lit ''k''), google_custom_search_engine_id = Some (lit ''cx''),
           duckduckgo_max_attempts = 3\<rparr>
     (\<lambda>key q cx n. Inr (JObj [(lit ''items'', JArr [JObj [(lit ''link'', JStr (lit ''u1''))]])]))
     (\<lambda>s. Inl JSONDecodeError) (lit ''q'') 8
   \<noteq> Inr (PList [JStr (lit ''u1'')])"
  using google_example by simp

text \<open>
  The \<open>except\<close> block on a structured payload: an object whose \<open>error\<close> is an object
  with an integer \<open>code\<close> and a string \<open>message\<close>. Code 403 with the phrase in the
  message gives \<open>ConfigurationError\<close>; everything else re-raises the \<open>HttpError\<close>.
\<close>

lemma google_on_http_error:
  assumes "google_api_key config = Some key" "key \<noteq> []"
    and "google_custom_search_engine_id config = Some cx" "cx \<noteq> []"
    and "execute key query cx n = Inl (HttpError e)"
  shows "google config execute json_loads query n = Inl (google_except json_loads e)"
  using assms by (simp add: google_def google_try_def)

lemma google_except_structured:
  assumes "decode_utf8 (content e) = Some text"
    and "json_loads text = Inr (JObj kvs)"
    and "map_of kvs (lit ''error'') = Some (JObj ekvs)"
    and "map_of ekvs (lit ''code'') = Some (JInt c)"
    and "map_of ekvs (lit ''message'') = Some (JStr m)"
  shows "google_except json_loads e =
           (if c = 403 \<and> (\<exists>pre suf. m = pre @ lit ''invalid API key'' @ suf)
            then ConfigurationError (lit ''The provided Google API key is invalid or missing.'')
            else HttpError e)"
  using assms by (simp add: google_except_def is_substring_iff)

lemma google_except_not_json:
  assumes "decode_utf8 (content e) = Some text" and "json_loads text = Inl x"
  shows "google_except json_loads e = x"
  using assms by (simp add: google_except_def)

lemma google_except_error_not_object:
  assumes "decode_utf8 (content e) = Some text"
    and "json_loads text = Inr (JObj kvs)"
    and "map_of kvs (lit ''error'') = Some (JStr m)"
  shows "google_except json_loads e = AttributeError"
  using assms by (simp add: google_except_def)

lemma decode_ascii: "decode_utf8 (encode_utf8_ignore (lit s)) = Some (lit s)"
  by (simp add: decode_encode all_encodable_keep ascii_encodable)

text \<open>
  C4. Every API error other than the invalid-key one is to propagate unchanged. The
  \<open>except\<close> block parses the body before it looks at anything, so an \<open>HttpError\<close>
  whose body is not JSON (a gateway's \<open>Bad Gateway\<close> page) leaves \<open>google\<close> as a
  \<open>JSONDecodeError\<close>, and one whose \<open>error\<close> member is a string rather than an object
  leaves it as an \<open>AttributeError\<close>: in both runs the original error is replaced.
\<close>

theorem google_masks_http_error:
  "google \<lparr>google_api_key = Some (lit ''k''), google_custom_search_engine_id = Some (lit ''cx''),
           duckduckgo_max_attempts = 3\<rparr>
     (\<lambda>key q cx n. Inl (HttpError \<lparr>status = 502,
                                   content = encode_utf8_ignore (lit ''Bad Gateway'')\<rparr>))
     (\<lambda>s. Inl JSONDecodeError) (lit ''q'') 8
   = Inl JSONDecodeError
   \<and> google \<lparr>google_api_key = Some (lit ''k''), google_custom_search_engine_id = Some (lit ''cx''),
           duckduckgo_max_attempts = 3\<rparr>
     (\<lambda>key q cx n. Inl (HttpError \<lparr>status = 403,
                                   content = encode_utf8_ignore (lit ''{\"error\": \"Forbidden\"}'')\<rparr>))
     (\<lambda>s. Inr (JObj [(lit ''error'', JStr (lit ''Forbidden''))])) (lit ''q'') 8
   = Inl AttributeError"
proof -
  have k: "lit ''k'' \<noteq> []" "lit ''cx'' \<noteq> []" by (simp_all add: lit_def)
  show ?thesis
    using k by (simp add: google_on_http_error google_except_def decode_ascii)
qed


section \<open>Properties of command discovery\<close>

text \<open>
  C8. For every configuration, command discovery yields \<open>web_search\<close>, and it yields
  \<open>google\<close> exactly when both the API key and the search engine id are present and
  non-empty.
\<close>

theorem get_commands_gating:
  "web_search_cmd \<in> set (get_commands config) \<and>
   (google_cmd \<in> set (get_commands config) \<longleftrightarrow>
      (\<exists>k e. google_api_key config = Some k \<and> k \<noteq> [] \<and>
             google_custom_search_engine_id config = Some e \<and> e \<noteq> []))"
  by (auto simp: get_commands_def secret_truthy_def split: option.splits)

end
